theory Spec2Isabelle
  imports Complex_Main "HOL-Library.AList"
begin

section \<open>Values, errors and the environment\<close>

text \<open>
  Python exceptions are values of \<open>error\<close>; a function that can raise returns
  \<open>error + 'a\<close> with \<open>Inl\<close> for the exception. The messages of the exceptions are
  not modelled, only their classes.
\<close>

datatype error =
    TypeError
  | FileNotFoundError
  | ValueError
  | KeyError
  | IndexError
  | AttributeError
  | AssertionError
  | RuntimeError
  | ExternalError string

type_synonym path = string

text \<open>
  The objects a caller can pass where a path is expected: a \<open>str\<close>, a
  \<open>pathlib.Path\<close>, or something that is neither.
\<close>

datatype patharg = Str string | PathObj path | NoPath

text \<open>
  The values found in a sample dictionary. Tensors (\<open>'t\<close>) and NumPy arrays (\<open>'n\<close>)
  belong to external libraries and stay abstract. A Python \<open>dict\<close> keeps insertion
  order, so it is an association list, written to with \<open>AList.update\<close>: an existing key
  keeps its position, a new one goes to the end.
\<close>

datatype ('t, 'n) pyval =
    PStr string
  | PTensor 't
  | PArray 'n
  | PFloats "real list"
  | PDict "(string \<times> ('t, 'n) pyval) list"

type_synonym ('t, 'n) pydict = "(string \<times> ('t, 'n) pyval) list"

datatype warning = NaNs_found path

text \<open>
  The enum \<open>Interpolation\<close> of \<open>torchio.transforms\<close> is not among the sources.
  \<open>NEAREST\<close> and \<open>LINEAR\<close> are the members \<open>random_affine.py\<close> names; any other
  member is \<open>Member\<close> with its name.
\<close>

datatype Interpolation = NEAREST | LINEAR | Member string

text \<open>
  SimpleITK transform objects, written as the calls that build them:
  \<open>ScaleTransform(3)\<close> after \<open>SetScale(v)\<close>, \<open>Euler3DTransform()\<close> after
  \<open>SetRotation(x, y, z)\<close>, and \<open>Transform(3, sitkComposite)\<close> after its
  \<open>AddTransform\<close> calls, in the order of the calls.
\<close>

datatype sitk_transform =
    ScaleTransform "real list"
  | Euler3DTransform real real real
  | Composite "sitk_transform list"

text \<open>
  Everything the two source files import and do not define. Tensors \<open>'t\<close>, NumPy
  arrays \<open>'n\<close>, SimpleITK images \<open>'i\<close> and the state \<open>'g\<close> of the random generator
  of \<open>torch\<close> stay abstract.
  \<^item> \<open>DATA\<close>, \<open>AFFINE\<close>, \<open>LABEL\<close>: the constants of \<open>torchio.torchio\<close>;
  \<^item> \<open>expanduser\<close>, \<open>is_file\<close>, \<open>is_dir\<close>: the file system seen through \<open>pathlib\<close>;
  \<^item> \<open>read_image\<close> of \<open>io\<close>, \<open>get_stem\<close>, \<open>is_image_dict\<close> and
    \<open>check_consistent_shape\<close> of \<open>utils\<close> (the last returns nothing or raises),
    \<open>nib_to_sitk\<close> of the base class of the transforms;
  \<^item> \<open>unsqueeze0\<close>, \<open>isnan_any\<close>, \<open>ndim\<close>, \<open>shape0\<close>, \<open>getitem0\<close>, \<open>setitem0\<close>,
    \<open>from_numpy\<close>: \<open>t.unsqueeze(0)\<close>, \<open>torch.isnan(t).any()\<close>, \<open>t.ndim\<close>,
    \<open>t.shape[0]\<close>, \<open>t[0]\<close>, \<open>t[0] = u\<close> and \<open>torch.from_numpy\<close>;
  \<^item> \<open>uniform\<close>: one draw of the generator of \<open>torch\<close> between two
    single-precision bounds;
  \<^item> \<open>Resample\<close>, \<open>GetArrayFromImage\<close>: the functions of SimpleITK; \<open>transpose\<close>:
    the method of NumPy arrays.
  Floating-point numbers are modelled as the real numbers they stand for; the
  rounding of the bounds of a draw to single precision is \<open>float32\<close> below.
\<close>

record ('t, 'n, 'i, 'g) env =
  DATA :: string
  AFFINE :: string
  LABEL :: string
  expanduser :: "path \<Rightarrow> error + path"
  is_file :: "path \<Rightarrow> bool"
  is_dir :: "path \<Rightarrow> bool"
  read_image :: "path \<Rightarrow> error + ('t \<times> 'n)"
  get_stem :: "path \<Rightarrow> string"
  is_image_dict :: "('t, 'n) pyval \<Rightarrow> bool"
  check_consistent_shape :: "('t, 'n) pydict \<Rightarrow> error option"
  nib_to_sitk :: "'t \<Rightarrow> 'n \<Rightarrow> 'i"
  unsqueeze0 :: "'t \<Rightarrow> 't"
  isnan_any :: "'t \<Rightarrow> bool"
  ndim :: "'t \<Rightarrow> nat"
  shape0 :: "'t \<Rightarrow> nat"
  getitem0 :: "'t \<Rightarrow> 't"
  setitem0 :: "'t \<Rightarrow> 't \<Rightarrow> 't"
  from_numpy :: "'n \<Rightarrow> 't"
  uniform :: "real \<Rightarrow> real \<Rightarrow> 'g \<Rightarrow> real \<times> 'g"
  Resample :: "'i \<Rightarrow> sitk_transform \<Rightarrow> Interpolation \<Rightarrow> 'i"
  GetArrayFromImage :: "'i \<Rightarrow> 'n"
  transpose :: "'n \<Rightarrow> 'n"

section \<open>Image\<close>

record image =
  name :: string
  path :: path
  type :: string

text \<open>\<open>Path(path)\<close>: \<open>pathlib\<close> raises \<open>TypeError\<close> for anything but a string or a path.\<close>

fun Path :: "patharg \<Rightarrow> error + path" where
  "Path (Str s) = Inr s"
| "Path (PathObj p) = Inr p"
| "Path NoPath = Inl TypeError"

text \<open>
  \<open>Image._parse_path\<close>. The \<open>try\<close> block covers \<open>Path(path).expanduser()\<close>; a
  \<open>TypeError\<close> from either call is raised again as \<open>TypeError\<close>, any other exception
  passes through.
\<close>

definition parse_path :: "('t, 'n, 'i, 'g) env \<Rightarrow> patharg \<Rightarrow> error + path" where
  "parse_path E p =
     (case (case Path p of Inl e \<Rightarrow> Inl e | Inr q \<Rightarrow> expanduser E q) of
        Inl e \<Rightarrow> (if e = TypeError then Inl TypeError else Inl e)
      | Inr q \<Rightarrow>
          if \<not> (is_file E q \<or> is_dir E q) then Inl FileNotFoundError
          else Inr q)"

text \<open>\<open>Image.__init__\<close>.\<close>

definition Image_init :: "('t, 'n, 'i, 'g) env \<Rightarrow> string \<Rightarrow> patharg \<Rightarrow> string \<Rightarrow> error + image" where
  "Image_init E nm p ty =
     (case parse_path E p of
        Inl e \<Rightarrow> Inl e
      | Inr q \<Rightarrow> Inr \<lparr>name = nm, path = q, type = ty\<rparr>)"

text \<open>
  \<open>Image.load\<close>. The result carries the warnings issued next to the returned pair.
\<close>

definition load :: "('t, 'n, 'i, 'g) env \<Rightarrow> image \<Rightarrow> bool \<Rightarrow> error + (('t \<times> 'n) \<times> warning list)" where
  "load E im check_nans =
     (case read_image E (path im) of
        Inl e \<Rightarrow> Inl e
      | Inr (tensor, affine) \<Rightarrow>
          (let tensor = unsqueeze0 E tensor in
           Inr ((tensor, affine),
                if check_nans \<and> isnan_any E tensor then [NaNs_found (path im)] else [])))"

section \<open>Subject\<close>

text \<open>An element handed to \<open>Subject\<close>: an \<open>Image\<close>, or an object of another class.\<close>

datatype element = Img image | NotImg string

record subject =
  items :: "element list"
  subject_name :: string

text \<open>
  The loop of \<open>Subject._parse_images\<close>, with the list \<open>names\<close> of the names seen so far.
\<close>

fun parse_images_loop :: "element list \<Rightarrow> string list \<Rightarrow> error + unit" where
  "parse_images_loop [] names = Inr ()"
| "parse_images_loop (NotImg c # rest) names = Inl TypeError"
| "parse_images_loop (Img im # rest) names =
     (if name im \<in> set names then Inl KeyError
      else parse_images_loop rest (names @ [name im]))"

text \<open>
  \<open>Subject._parse_images\<close>. The argument is the tuple \<open>*images\<close>, which is a
  \<open>Sequence\<close>, so the first check never fails.
\<close>

definition parse_images :: "element list \<Rightarrow> error + unit" where
  "parse_images images =
     (if images = [] then Inl ValueError
      else parse_images_loop images [])"

text \<open>\<open>Subject.__init__\<close>.\<close>

definition Subject :: "element list \<Rightarrow> string \<Rightarrow> error + subject" where
  "Subject images nm =
     (case parse_images images of
        Inl e \<Rightarrow> Inl e
      | Inr u \<Rightarrow> Inr \<lparr>items = images, subject_name = nm\<rparr>)"

section \<open>ImagesDataset\<close>

type_synonym ('t, 'n) transform = "('t, 'n) pydict \<Rightarrow> error + ('t, 'n) pydict"

record ('t, 'n) images_dataset =
  subjects :: "subject list"
  transform :: "('t, 'n) transform option"
  check_nans :: bool

text \<open>
  The loop of \<open>ImagesDataset._parse_subjects_list\<close>: every element is unpacked into
  \<open>Subject(*subject_list)\<close>, whose exception, if any, ends the loop. The subjects
  come as a list, which is a \<open>Sequence\<close>, so the first check of
  \<open>_parse_subjects_list\<close> never fails.
\<close>

fun parse_subjects_loop :: "subject list \<Rightarrow> error + unit" where
  "parse_subjects_loop [] = Inr ()"
| "parse_subjects_loop (s # rest) =
     (case Subject (items s) [] of
        Inl e \<Rightarrow> Inl e
      | Inr u \<Rightarrow> parse_subjects_loop rest)"

definition parse_subjects_list :: "subject list \<Rightarrow> error + unit" where
  "parse_subjects_list subjects_list =
     (if subjects_list = [] then Inl ValueError
      else parse_subjects_loop subjects_list)"

text \<open>\<open>ImagesDataset.__init__\<close>.\<close>

definition ImagesDataset_init ::
  "subject list \<Rightarrow> ('t, 'n) transform option \<Rightarrow> bool \<Rightarrow> error + ('t, 'n) images_dataset" where
  "ImagesDataset_init subjs tr cn =
     (case parse_subjects_list subjs of
        Inl e \<Rightarrow> Inl e
      | Inr u \<Rightarrow> Inr \<lparr>subjects = subjs, transform = tr, check_nans = cn\<rparr>)"

text \<open>\<open>ImagesDataset.__len__\<close>.\<close>

definition len :: "('t, 'n) images_dataset \<Rightarrow> nat" where
  "len ds = length (subjects ds)"

text \<open>\<open>ImagesDataset.set_transform\<close>.\<close>

definition set_transform ::
  "('t, 'n) images_dataset \<Rightarrow> ('t, 'n) transform option \<Rightarrow> ('t, 'n) images_dataset" where
  "set_transform ds tr = ds\<lparr>transform := tr\<rparr>"

text \<open>
  Indexing a Python list: a negative index counts from the end, anything outside
  \<open>-len \<dots> len - 1\<close> raises \<open>IndexError\<close>.
\<close>

definition list_getitem :: "'a list \<Rightarrow> int \<Rightarrow> error + 'a" where
  "list_getitem xs i =
     (if 0 \<le> i \<and> i < int (length xs) then Inr (xs ! nat i)
      else if - int (length xs) \<le> i \<and> i < 0 then Inr (xs ! nat (int (length xs) + i))
      else Inl IndexError)"

text \<open>
  The dictionary literal of \<open>__getitem__\<close>, its keys written in the order of the source.
\<close>

definition image_dict :: "('t, 'n, 'i, 'g) env \<Rightarrow> image \<Rightarrow> 't \<Rightarrow> 'n \<Rightarrow> ('t, 'n) pydict" where
  "image_dict E im tensor affine =
     AList.update ''stem'' (PStr (get_stem E (path im)))
       (AList.update ''path'' (PStr (path im))
         (AList.update ''type'' (PStr (type im))
           (AList.update (AFFINE E) (PArray affine)
             (AList.update (DATA E) (PTensor tensor) []))))"

text \<open>
  The loop over the images of a subject, with the sample built so far and the warnings
  issued so far. An element that is not an \<open>Image\<close> has no \<open>load\<close>.
\<close>

fun getitem_loop ::
  "('t, 'n, 'i, 'g) env \<Rightarrow> bool \<Rightarrow> element list \<Rightarrow> ('t, 'n) pydict \<times> warning list
     \<Rightarrow> error + (('t, 'n) pydict \<times> warning list)" where
  "getitem_loop E cn [] acc = Inr acc"
| "getitem_loop E cn (NotImg c # rest) acc = Inl AttributeError"
| "getitem_loop E cn (Img im # rest) (sample, ws) =
     (case load E im cn of
        Inl e \<Rightarrow> Inl e
      | Inr ((tensor, affine), w) \<Rightarrow>
          getitem_loop E cn rest
            (AList.update (name im) (PDict (image_dict E im tensor affine)) sample, ws @ w))"

text \<open>\<open>ImagesDataset.__getitem__\<close>.\<close>

definition getitem ::
  "('t, 'n, 'i, 'g) env \<Rightarrow> ('t, 'n) images_dataset \<Rightarrow> int \<Rightarrow> error + (('t, 'n) pydict \<times> warning list)" where
  "getitem E ds index =
     (case list_getitem (subjects ds) index of
        Inl e \<Rightarrow> Inl e
      | Inr subj \<Rightarrow>
          (case getitem_loop E (check_nans ds) (items subj) ([], []) of
             Inl e \<Rightarrow> Inl e
           | Inr (sample, ws) \<Rightarrow>
               (case transform ds of
                  None \<Rightarrow> Inr (sample, ws)
                | Some f \<Rightarrow>
                    (case f sample of Inl e \<Rightarrow> Inl e | Inr sample' \<Rightarrow> Inr (sample', ws)))))"

section \<open>RandomAffine\<close>

record random_affine =
  scales :: "real \<times> real"
  degrees :: "real \<times> real"
  isotropic :: bool
  interpolation :: Interpolation

text \<open>
  A \<open>FloatTensor\<close> holds single-precision numbers. \<open>float32\<close> is the rounding of a
  real number to the nearest one of them, ties to the even mantissa: 24 bits of
  mantissa, the exponent not below \<open>-126\<close> (smaller numbers are subnormal). The
  overflow to infinity of magnitudes from \<open>2\<^sup>1\<^sup>2\<^sup>8\<close> on is not modelled.
\<close>

definition round_half_even :: "real \<Rightarrow> int" where
  "round_half_even y =
     (if frac y = 1 / 2 then (if even \<lfloor>y\<rfloor> then \<lfloor>y\<rfloor> else \<lfloor>y\<rfloor> + 1) else round y)"

definition float32 :: "real \<Rightarrow> real" where
  "float32 x =
     (if x = 0 then 0
      else
        (let e = max \<lfloor>log 2 \<bar>x\<bar>\<rfloor> (- 126);
             ulp = 2 powr (real_of_int e - 23)
         in sgn x * real_of_int (round_half_even (\<bar>x\<bar> / ulp)) * ulp))"

text \<open>
  Filling a tensor of \<open>n\<close> elements: every element is a draw from the generator,
  whose state is passed on.
\<close>

fun uniform_fill :: "('t, 'n, 'i, 'g) env \<Rightarrow> nat \<Rightarrow> real \<Rightarrow> real \<Rightarrow> 'g \<Rightarrow> real list \<times> 'g" where
  "uniform_fill E 0 a b g = ([], g)"
| "uniform_fill E (Suc n) a b g =
     (case uniform E a b g of
        (x, g') \<Rightarrow> (case uniform_fill E n a b g' of (xs, g'') \<Rightarrow> (x # xs, g'')))"

text \<open>
  \<open>torch.FloatTensor(n).uniform_(a, b)\<close>: \<open>torch\<close> raises \<open>RuntimeError\<close> when \<open>a\<close>
  is above \<open>b\<close>; otherwise the bounds are rounded to single precision and the tensor
  is filled with draws between them.
\<close>

definition FloatTensor_uniform ::
  "('t, 'n, 'i, 'g) env \<Rightarrow> nat \<Rightarrow> real \<Rightarrow> real \<Rightarrow> 'g \<Rightarrow> error + (real list \<times> 'g)" where
  "FloatTensor_uniform E n a b g =
     (if b < a then Inl RuntimeError
      else Inr (uniform_fill E n (float32 a) (float32 b) g))"

text \<open>\<open>t.fill_(t[0])\<close> on a one-dimensional tensor.\<close>

definition fill_first :: "real list \<Rightarrow> real list" where
  "fill_first xs = replicate (length xs) (xs ! 0)"

text \<open>
  \<open>RandomAffine.get_params\<close>. \<open>tolist()\<close> turns the single-precision numbers into
  Python floats of the same value.
\<close>

definition get_params ::
  "('t, 'n, 'i, 'g) env \<Rightarrow> real \<times> real \<Rightarrow> real \<times> real \<Rightarrow> bool \<Rightarrow> 'g
     \<Rightarrow> error + ((real list \<times> real list) \<times> 'g)" where
  "get_params E scls degs isotr g =
     (case FloatTensor_uniform E 3 (fst scls) (snd scls) g of
        Inl e \<Rightarrow> Inl e
      | Inr (scaling_params, g1) \<Rightarrow>
          (let scaling_params = (if isotr then fill_first scaling_params else scaling_params) in
           case FloatTensor_uniform E 3 (fst degs) (snd degs) g1 of
             Inl e \<Rightarrow> Inl e
           | Inr (rotation_params, g2) \<Rightarrow> Inr ((scaling_params, rotation_params), g2)))"

text \<open>
  \<open>RandomAffine.get_scaling_transform\<close>. NumPy divides elementwise; \<open>1 / 0.0\<close> is
  \<open>inf\<close> there and \<open>0\<close> in HOL, so the model is the code for non-zero parameters.
\<close>

definition get_scaling_transform :: "real list \<Rightarrow> sitk_transform" where
  "get_scaling_transform scaling_params =
     (let scaling_params = map (\<lambda>s. 1 / s) scaling_params in
      ScaleTransform scaling_params)"

text \<open>\<open>np.radians\<close>.\<close>

definition radians_of :: "real list \<Rightarrow> real list" where
  "radians_of ds = map (\<lambda>d. d * pi / 180) ds"

text \<open>
  \<open>RandomAffine.get_rotation_transform\<close>. \<open>SetRotation(*radians)\<close> takes three
  arguments; any other number of them is a \<open>TypeError\<close> of the call.
\<close>

definition get_rotation_transform :: "real list \<Rightarrow> error + sitk_transform" where
  "get_rotation_transform degs =
     (let radians = radians_of degs in
      case radians of
        [x, y, z] \<Rightarrow> Inr (Euler3DTransform x y z)
      | _ \<Rightarrow> Inl TypeError)"

text \<open>
  \<open>transform.AddTransform(t)\<close>: the transform \<open>t\<close> goes to the end of a composite
  transform. The source calls it on composites only; on another transform the model
  changes nothing.
\<close>

fun AddTransform :: "sitk_transform \<Rightarrow> sitk_transform \<Rightarrow> sitk_transform" where
  "AddTransform (Composite ts) t = Composite (ts @ [t])"
| "AddTransform u t = u"

text \<open>
  \<open>RandomAffine.apply_affine_transform\<close>. The source writes the resampled volume
  into \<open>array[0]\<close> and returns \<open>array\<close>; the model returns the tensor after that
  assignment.
\<close>

definition apply_affine_transform ::
  "('t, 'n, 'i, 'g) env \<Rightarrow> 't \<Rightarrow> 'n \<Rightarrow> real list \<Rightarrow> real list \<Rightarrow> Interpolation \<Rightarrow> error + 't" where
  "apply_affine_transform E array affine scaling_params rotation_params interp =
     (if ndim E array \<noteq> 4 then Inl AssertionError
      else if shape0 E array \<noteq> 1 then Inl AssertionError
      else
        (let image = nib_to_sitk E (getitem0 E array) affine;
             scaling_transform = get_scaling_transform scaling_params in
         case get_rotation_transform rotation_params of
           Inl e \<Rightarrow> Inl e
         | Inr rotation_transform \<Rightarrow>
             (let transform = Composite [];
                  transform = AddTransform transform scaling_transform;
                  transform = AddTransform transform rotation_transform;
                  resampled = Resample E image transform interp;
                  np_array = GetArrayFromImage E resampled;
                  np_array = transpose E np_array
              in Inr (setitem0 E array (from_numpy E np_array)))))"

text \<open>
  The body of the loop of \<open>RandomAffine.apply_transform\<close> for one value of the sample.
  Subscripting a value that is not a dictionary, or handing over a \<open>DATA\<close> entry that
  is not a tensor or an \<open>AFFINE\<close> entry that is not an array, raises in Python an
  exception whose class depends on the value; the model raises \<open>TypeError\<close>.
\<close>

definition transform_value ::
  "('t, 'n, 'i, 'g) env \<Rightarrow> Interpolation \<Rightarrow> real list \<Rightarrow> real list \<Rightarrow> ('t, 'n) pyval
     \<Rightarrow> error + ('t, 'n) pyval" where
  "transform_value E self_interpolation scaling_params rotation_params img_dict =
     (if \<not> is_image_dict E img_dict then Inr img_dict
      else
        (case img_dict of
           PDict d \<Rightarrow>
             (case map_of d ''type'' of
                None \<Rightarrow> Inl KeyError
              | Some ty \<Rightarrow>
                  (let interp = (if ty = PStr (LABEL E) then NEAREST else self_interpolation) in
                   case map_of d (DATA E) of
                     None \<Rightarrow> Inl KeyError
                   | Some dv \<Rightarrow>
                       (case map_of d (AFFINE E) of
                          None \<Rightarrow> Inl KeyError
                        | Some av \<Rightarrow>
                            (case (dv, av) of
                               (PTensor array, PArray affine) \<Rightarrow>
                                 (case apply_affine_transform E array affine
                                         scaling_params rotation_params interp of
                                    Inl e \<Rightarrow> Inl e
                                  | Inr array' \<Rightarrow>
                                      Inr (PDict (AList.update (DATA E) (PTensor array') d)))
                             | _ \<Rightarrow> Inl TypeError))))
         | _ \<Rightarrow> Inl TypeError))"

text \<open>
  The loop \<open>for image_dict in sample.values()\<close>: the values are visited in the order
  of the dictionary and the first exception ends the loop.
\<close>

fun transform_values ::
  "('t, 'n, 'i, 'g) env \<Rightarrow> Interpolation \<Rightarrow> real list \<Rightarrow> real list \<Rightarrow> ('t, 'n) pydict
     \<Rightarrow> error + ('t, 'n) pydict" where
  "transform_values E ip sc rot [] = Inr []"
| "transform_values E ip sc rot ((k, v) # rest) =
     (case transform_value E ip sc rot v of
        Inl e \<Rightarrow> Inl e
      | Inr v' \<Rightarrow>
          (case transform_values E ip sc rot rest of
             Inl e \<Rightarrow> Inl e
           | Inr rest' \<Rightarrow> Inr ((k, v') # rest')))"

text \<open>
  \<open>RandomAffine.apply_transform\<close>, with the state of the random generator passed
  through. The source updates the sample and its image dictionaries in place; the
  model returns the sample as it is after the call, for a sample whose dictionaries
  and tensors are separate objects (as \<open>__getitem__\<close> builds them).
\<close>

definition apply_transform ::
  "('t, 'n, 'i, 'g) env \<Rightarrow> random_affine \<Rightarrow> ('t, 'n) pydict \<Rightarrow> 'g
     \<Rightarrow> error + (('t, 'n) pydict \<times> 'g)" where
  "apply_transform E self sample g =
     (case check_consistent_shape E sample of
        Some e \<Rightarrow> Inl e
      | None \<Rightarrow>
          (case get_params E (scales self) (degrees self) (isotropic self) g of
             Inl e \<Rightarrow> Inl e
           | Inr ((scaling_params, rotation_params), g') \<Rightarrow>
               (let sample = AList.update ''random_scaling'' (PFloats scaling_params) sample;
                    sample = AList.update ''random_rotation'' (PFloats rotation_params) sample in
                case transform_values E (interpolation self) scaling_params rotation_params sample of
                  Inl e \<Rightarrow> Inl e
                | Inr sample' \<Rightarrow> Inr (sample', g'))))"

section \<open>An environment for evaluation\<close>

text \<open>
  A small instance of the environment, on which the functions above can be run. A
  tensor, an array or an image is a shape with a number standing for its content;
  \<open>Resample\<close> changes that number in a way that tells the interpolations apart.
  Two files and one directory exist.
\<close>

type_synonym toy = "nat list \<times> nat"

definition toy_Resample :: "toy \<Rightarrow> sitk_transform \<Rightarrow> Interpolation \<Rightarrow> toy" where
  "toy_Resample im tr ip =
     (fst im, snd im + (case ip of NEAREST \<Rightarrow> 100 | LINEAR \<Rightarrow> 200 | Member m \<Rightarrow> 300))"

fun toy_is_image_dict :: "(toy, toy) pyval \<Rightarrow> bool" where
  "toy_is_image_dict (PDict d) =
     (map_of d ''type'' \<noteq> None \<and> map_of d ''data'' \<noteq> None \<and> map_of d ''affine'' \<noteq> None)"
| "toy_is_image_dict v = False"

definition toy_env :: "(toy, toy, toy, nat) env" where
  "toy_env =
     \<lparr>DATA = ''data'', AFFINE = ''affine'', LABEL = ''label'',
      expanduser = (\<lambda>p. Inr (if take 1 p = ''~'' then ''/home/u'' @ drop 1 p else p)),
      is_file = (\<lambda>p. p = ''/home/u/t1.nii'' \<or> p = ''/home/u/seg.nii''),
      is_dir = (\<lambda>p. p = ''/home/u/dicom''),
      read_image = (\<lambda>p. if p = ''/home/u/t1.nii'' then Inr (([2, 3, 4], 7), ([4, 4], 1))
                          else if p = ''/home/u/seg.nii'' then Inr (([2, 3, 4], 9), ([4, 4], 1))
                          else Inl (ExternalError ''read_image'')),
      get_stem = (\<lambda>p. takeWhile (\<lambda>c. c \<noteq> CHR ''.'') (drop 8 p)),
      is_image_dict = toy_is_image_dict,
      check_consistent_shape = (\<lambda>s. None),
      nib_to_sitk = (\<lambda>t a. (rev (fst t), snd t)),
      unsqueeze0 = (\<lambda>t. (1 # fst t, snd t)),
      isnan_any = (\<lambda>t. False),
      ndim = (\<lambda>t. length (fst t)),
      shape0 = (\<lambda>t. hd (fst t)),
      getitem0 = (\<lambda>t. (tl (fst t), snd t)),
      setitem0 = (\<lambda>t u. (fst t, snd u)),
      from_numpy = (\<lambda>a. a),
      uniform = (\<lambda>a b g. (if even g then a else (a + b) / 2, Suc g)),
      Resample = toy_Resample,
      GetArrayFromImage = (\<lambda>i. i),
      transpose = (\<lambda>a. (rev (fst a), snd a))\<rparr>"

definition toy_t1 :: image where
  "toy_t1 = \<lparr>name = ''t1'', path = ''/home/u/t1.nii'', type = ''intensity''\<rparr>"

definition toy_seg :: image where
  "toy_seg = \<lparr>name = ''seg'', path = ''/home/u/seg.nii'', type = ''label''\<rparr>"

text \<open>
  A sample of two images as \<open>__getitem__\<close> builds it, a transform, the sample after
  the transform has run on it with the generator in state \<open>0\<close>, a sample that holds
  the parameters of an earlier run and a note, and that sample after the transform has
  run on it.
\<close>

definition toy_sample :: "(toy, toy) pydict" where
  "toy_sample =
     [(''t1'', PDict [(''data'', PTensor ([1, 2, 3, 4], 7)), (''affine'', PArray ([4, 4], 1)),
                      (''type'', PStr ''intensity''), (''path'', PStr ''/home/u/t1.nii''),
                      (''stem'', PStr ''t1'')]),
      (''seg'', PDict [(''data'', PTensor ([1, 2, 3, 4], 9)), (''affine'', PArray ([4, 4], 1)),
                       (''type'', PStr ''label''), (''path'', PStr ''/home/u/seg.nii''),
                       (''stem'', PStr ''seg'')])]"

definition toy_affine :: random_affine where
  "toy_affine = \<lparr>scales = (3 / 4, 5 / 4), degrees = (- 10, 10), isotropic = False,
                  interpolation = LINEAR\<rparr>"


definition toy_result :: "(toy, toy) pydict" where
  "toy_result =
     [(''t1'', PDict [(''data'', PTensor ([1, 2, 3, 4], 207)), (''affine'', PArray ([4, 4], 1)),
                      (''type'', PStr ''intensity''), (''path'', PStr ''/home/u/t1.nii''),
                      (''stem'', PStr ''t1'')]),
      (''seg'', PDict [(''data'', PTensor ([1, 2, 3, 4], 109)), (''affine'', PArray ([4, 4], 1)),
                       (''type'', PStr ''label''), (''path'', PStr ''/home/u/seg.nii''),
                       (''stem'', PStr ''seg'')]),
      (''random_scaling'', PFloats [3 / 4, 1, 3 / 4]),
      (''random_rotation'', PFloats [0, - 10, 0])]"

definition toy_previous :: "(toy, toy) pydict" where
  "toy_previous = toy_sample @ [(''random_scaling'', PFloats [1, 1, 1]),
                                (''random_rotation'', PFloats [0, 0, 0]),
                                (''note'', PStr ''second run'')]"

definition toy_result_previous :: "(toy, toy) pydict" where
  "toy_result_previous = toy_result @ [(''note'', PStr ''second run'')]"

text \<open>
  Two subjects, a dataset of them built without a transform, the sample of the first
  subject, and the transform above as a function from samples to samples.
\<close>

definition toy_subject_b :: subject where
  "toy_subject_b = \<lparr>items = [Img toy_seg], subject_name = ''subject_b''\<rparr>"

definition toy_subject :: subject where
  "toy_subject = \<lparr>items = [Img toy_t1, Img toy_seg], subject_name = ''subject_a''\<rparr>"

definition toy_dataset :: "(toy, toy) images_dataset" where
  "toy_dataset = \<lparr>subjects = [toy_subject_b, toy_subject], transform = None,
                   check_nans = True\<rparr>"

definition toy_sample_b :: "(toy, toy) pydict" where
  "toy_sample_b =
     [(''seg'', PDict [(''data'', PTensor ([1, 2, 3, 4], 9)), (''affine'', PArray ([4, 4], 1)),
                       (''type'', PStr ''label''), (''path'', PStr ''/home/u/seg.nii''),
                       (''stem'', PStr ''seg'')])]"

definition toy_transform :: "(toy, toy) transform" where
  "toy_transform s =
     (case apply_transform toy_env toy_affine s 0 of
        Inl e \<Rightarrow> Inl e
      | Inr (s', g) \<Rightarrow> Inr s')"

section \<open>Properties of Image\<close>

text \<open>
  Claim C4. \<open>Image\<close> pairs a name, a path and a type and loads lazily: a constructed
  image holds the given name, the parsed path (\<open>Path(path).expanduser()\<close>) and the
  given type; the result of the constructor does not depend on \<open>read_image\<close> nor on
  the tensor operations, so it reads no image data; \<open>load\<close> fails exactly when
  \<open>read_image\<close> fails on the stored path, and what it returns is the affine matrix
  read by \<open>read_image\<close> and the tensor read by it with the channels dimension added.
\<close>

theorem C4_image_lazy:
  "(Image_init E nm p ty = Inr im \<longrightarrow>
      name im = nm \<and> type im = ty \<and>
      (\<exists>q. Path p = Inr q \<and> expanduser E q = Inr (path im))) \<and>
   Image_init (E\<lparr>read_image := r, unsqueeze0 := u, isnan_any := n\<rparr>) nm p ty
     = Image_init E nm p ty \<and>
   (load E im c = Inl e \<longleftrightarrow> read_image E (path im) = Inl e) \<and>
   (load E im c = Inr ((t, a), w) \<longrightarrow>
      (\<exists>t0. read_image E (path im) = Inr (t0, a) \<and> t = unsqueeze0 E t0))"
  by (auto simp: Image_init_def parse_path_def load_def Let_def split: sum.splits if_splits prod.splits)

theorem C4_image_lazy_witness:
  "Image_init toy_env ''t1'' (Str ''~/t1.nii'') ''intensity'' = Inr toy_t1 \<and>
   name toy_t1 = ''t1'' \<and> type toy_t1 = ''intensity'' \<and>
   (\<exists>q. Path (Str ''~/t1.nii'') = Inr q \<and> expanduser toy_env q = Inr (path toy_t1)) \<and>
   load toy_env toy_t1 True = Inr ((([1, 2, 3, 4], 7), ([4, 4], 1)), []) \<and>
   (\<exists>t0. read_image toy_env (path toy_t1) = Inr (t0, ([4, 4], 1)) \<and>
      ([1, 2, 3, 4], 7) = unsqueeze0 toy_env t0)"
proof -
  have a: "Image_init toy_env ''t1'' (Str ''~/t1.nii'') ''intensity'' = Inr toy_t1"
    by (simp add: Image_init_def parse_path_def toy_env_def toy_t1_def)
  have b: "load toy_env toy_t1 True = Inr ((([1, 2, 3, 4], 7), ([4, 4], 1)), [])"
    by (simp add: load_def toy_env_def toy_t1_def)
  show ?thesis
    using a b
      C4_image_lazy [where E = toy_env and nm = "''t1''" and p = "Str ''~/t1.nii''"
                       and ty = "''intensity''" and im = toy_t1 and c = True
                       and t = "([1, 2, 3, 4], 7)" and a = "([4, 4], 1)" and w = "[]"]
    by simp
qed



section \<open>Properties of Subject\<close>

lemma parse_images_loop_Img:
  "parse_images_loop (map Img ims) names =
     (if distinct (map name ims) \<and> set (map name ims) \<inter> set names = {} then Inr () else Inl KeyError)"
proof (induction ims arbitrary: names)
  case Nil
  show ?case by simp
next
  case (Cons im ims)
  show ?case by (auto simp: Cons.IH)
qed

text \<open>
  Claim C3. For every sequence of images, \<open>Subject(*images)\<close> raises (a \<open>KeyError\<close>)
  when two of the images have the same name, and when the sequence is not empty and
  the names are pairwise distinct, the construction succeeds and the subject holds
  exactly those images, in order.
\<close>

theorem C3_subject_unique_names:
  "(\<not> distinct (map name ims) \<longrightarrow> Subject (map Img ims) nm = Inl KeyError) \<and>
   (ims \<noteq> [] \<and> distinct (map name ims) \<longrightarrow>
      Subject (map Img ims) nm = Inr \<lparr>items = map Img ims, subject_name = nm\<rparr>)"
  by (auto simp: Subject_def parse_images_def parse_images_loop_Img)

theorem C3_subject_unique_names_witness:
  "\<not> distinct (map name [\<lparr>name = ''t1'', path = ''a'', type = ''intensity''\<rparr>,
                          \<lparr>name = ''t1'', path = ''b'', type = ''label''\<rparr>]) \<and>
   Subject (map Img [\<lparr>name = ''t1'', path = ''a'', type = ''intensity''\<rparr>,
                     \<lparr>name = ''t1'', path = ''b'', type = ''label''\<rparr>]) ''s'' = Inl KeyError \<and>
   [\<lparr>name = ''t1'', path = ''a'', type = ''intensity''\<rparr>,
    \<lparr>name = ''seg'', path = ''b'', type = ''label''\<rparr>] \<noteq> [] \<and>
   distinct (map name [\<lparr>name = ''t1'', path = ''a'', type = ''intensity''\<rparr>,
                       \<lparr>name = ''seg'', path = ''b'', type = ''label''\<rparr>]) \<and>
   Subject (map Img [\<lparr>name = ''t1'', path = ''a'', type = ''intensity''\<rparr>,
                     \<lparr>name = ''seg'', path = ''b'', type = ''label''\<rparr>]) ''s''
     = Inr \<lparr>items = map Img [\<lparr>name = ''t1'', path = ''a'', type = ''intensity''\<rparr>,
                              \<lparr>name = ''seg'', path = ''b'', type = ''label''\<rparr>],
            subject_name = ''s''\<rparr>"
  using C3_subject_unique_names
          [of "[\<lparr>name = ''t1'', path = ''a'', type = ''intensity''\<rparr>,
                \<lparr>name = ''t1'', path = ''b'', type = ''label''\<rparr>]" "''s''"]
        C3_subject_unique_names
          [of "[\<lparr>name = ''t1'', path = ''a'', type = ''intensity''\<rparr>,
                \<lparr>name = ''seg'', path = ''b'', type = ''label''\<rparr>]" "''s''"]
  by simp

section \<open>Properties of the rounding to single precision\<close>

lemma round_half_even_cases:
  "round_half_even y = (if frac y < 1 / 2 then \<lfloor>y\<rfloor>
                        else if frac y > 1 / 2 then \<lfloor>y\<rfloor> + 1
                        else if even \<lfloor>y\<rfloor> then \<lfloor>y\<rfloor> else \<lfloor>y\<rfloor> + 1)"
  unfolding round_half_even_def round_def frac_def
  by (auto simp: floor_eq_iff) linarith+


lemma round_half_even_of_int [simp]: "round_half_even (of_int n) = n"
  by (simp add: round_half_even_cases)


lemma float32_pos:
  "0 < x \<Longrightarrow> float32 x =
     real_of_int (round_half_even (x / 2 powr (real_of_int (max \<lfloor>log 2 x\<rfloor> (- 126)) - 23)))
       * 2 powr (real_of_int (max \<lfloor>log 2 x\<rfloor> (- 126)) - 23)"
  by (simp add: float32_def Let_def)

lemma float32_minus: "float32 (- x) = - float32 x"
  by (simp add: float32_def Let_def)








lemma float32_eval:
  assumes p: "0 < x" and lo: "2 powr real_of_int e \<le> x" and hi: "x < 2 powr (real_of_int e + 1)"
    and n: "- 126 \<le> e"
  shows "float32 x = real_of_int (round_half_even (x / 2 powr (real_of_int e - 23)))
                       * 2 powr (real_of_int e - 23)"
proof -
  from floor_log_eq_powr_iff [of x 2 e] p lo hi have "\<lfloor>log 2 x\<rfloor> = e" by simp
  with n have "max \<lfloor>log 2 x\<rfloor> (- 126) = e" by simp
  then show ?thesis by (simp add: float32_pos [OF p])
qed



lemma float32_exact:
  assumes p: "0 < x" and lo: "2 powr real_of_int e \<le> x" and hi: "x < 2 powr (real_of_int e + 1)"
    and n: "- 126 \<le> e" and m: "x / 2 powr (real_of_int e - 23) = real_of_int k"
  shows "float32 x = x"
proof -
  have "float32 x = real_of_int (round_half_even (x / 2 powr (real_of_int e - 23)))
                       * 2 powr (real_of_int e - 23)"
    by (rule float32_eval [OF p lo hi n])
  also have "\<dots> = x / 2 powr (real_of_int e - 23) * 2 powr (real_of_int e - 23)"
    by (simp only: m round_half_even_of_int)
  also have "\<dots> = x" by simp
  finally show ?thesis .
qed

lemma float32_3_4: "float32 (3 / 4) = 3 / 4"
  by (rule float32_exact [where e = "- 1" and k = 12582912])
     (simp_all add: powr_minus_divide powr_neg_numeral)

lemma float32_5_4: "float32 (5 / 4) = 5 / 4"
  by (rule float32_exact [where e = 0 and k = 10485760])
     (simp_all add: powr_minus_divide powr_neg_numeral)

lemma float32_10: "float32 10 = 10"
  by (rule float32_exact [where e = 3 and k = 10485760])
     (simp_all add: powr_minus_divide powr_neg_numeral)

lemma float32_minus_10: "float32 (- 10) = - 10"
  using float32_minus [of 10] by (simp add: float32_10)

section \<open>Properties of RandomAffine: the parameters and the transform\<close>

lemma uniform_fill_length:
  "uniform_fill E n a b g = (xs, g') \<Longrightarrow> length xs = n"
  by (induction n arbitrary: g xs g') (auto split: prod.splits)

lemma uniform_fill_range:
  "\<lbrakk>\<And>h. a \<le> fst (uniform E a b h) \<and> fst (uniform E a b h) \<le> b;
    uniform_fill E n a b g = (xs, g')\<rbrakk> \<Longrightarrow> \<forall>x\<in>set xs. a \<le> x \<and> x \<le> b"
proof (induction n arbitrary: g xs g')
  case 0
  then show ?case by simp
next
  case (Suc n)
  obtain x g1 where u: "uniform E a b g = (x, g1)" by (cases "uniform E a b g")
  obtain ys g2 where r: "uniform_fill E n a b g1 = (ys, g2)"
    by (cases "uniform_fill E n a b g1")
  from Suc.prems(2) u r have xs: "xs = x # ys" by simp
  from Suc.prems(1) [of g] u have "a \<le> x \<and> x \<le> b" by simp
  moreover from Suc.IH [OF Suc.prems(1) r] have "\<forall>y\<in>set ys. a \<le> y \<and> y \<le> b" .
  ultimately show ?case using xs by simp
qed




lemma get_params_RuntimeError:
  "snd scls < fst scls \<Longrightarrow> get_params E scls degs isotr g = Inl RuntimeError"
  by (simp add: get_params_def FloatTensor_uniform_def)




text \<open>
  Claim C5. The transform handed to the resampling is a composite of exactly two
  transforms, added in this order: a scale transform whose factors are the
  reciprocals \<open>1 / s\<close> of the scaling parameters, and an Euler rotation whose angles
  are the rotation parameters turned from degrees into radians.
\<close>

theorem C5_composed_transform:
  "get_scaling_transform sc = ScaleTransform (map (\<lambda>s. 1 / s) sc) \<and>
   (\<forall>i<length sc. sc ! i \<noteq> 0 \<longrightarrow> map (\<lambda>s. 1 / s) sc ! i * sc ! i = 1) \<and>
   get_rotation_transform [x, y, z]
     = Inr (Euler3DTransform (x * pi / 180) (y * pi / 180) (z * pi / 180)) \<and>
   (apply_affine_transform E array affine sc rot ip = Inr array' \<longrightarrow>
      (\<exists>a b c. rot = [a, b, c] \<and>
         array' = setitem0 E array (from_numpy E (transpose E (GetArrayFromImage E
                    (Resample E (nib_to_sitk E (getitem0 E array) affine)
                       (Composite [ScaleTransform (map (\<lambda>s. 1 / s) sc),
                                   Euler3DTransform (a * pi / 180) (b * pi / 180) (c * pi / 180)])
                       ip))))))"
proof -
  have 1: "get_scaling_transform sc = ScaleTransform (map (\<lambda>s. 1 / s) sc)"
    by (simp add: get_scaling_transform_def)
  have 2: "\<forall>i<length sc. sc ! i \<noteq> 0 \<longrightarrow> map (\<lambda>s. 1 / s) sc ! i * sc ! i = 1"
    by simp
  have 3: "get_rotation_transform [x, y, z]
     = Inr (Euler3DTransform (x * pi / 180) (y * pi / 180) (z * pi / 180))"
    by (simp add: get_rotation_transform_def radians_of_def)
  have 4: "apply_affine_transform E array affine sc rot ip = Inr array' \<longrightarrow>
      (\<exists>a b c. rot = [a, b, c] \<and>
         array' = setitem0 E array (from_numpy E (transpose E (GetArrayFromImage E
                    (Resample E (nib_to_sitk E (getitem0 E array) affine)
                       (Composite [ScaleTransform (map (\<lambda>s. 1 / s) sc),
                                   Euler3DTransform (a * pi / 180) (b * pi / 180) (c * pi / 180)])
                       ip)))))"
    by (auto simp: apply_affine_transform_def get_scaling_transform_def
          get_rotation_transform_def radians_of_def Let_def
        split: if_splits sum.splits list.splits)
  show ?thesis using 1 2 3 4 by blast
qed

theorem C5_composed_transform_witness:
  "map (\<lambda>s. 1 / s) [2, 4, 1 / 2 :: real] ! 1 * [2, 4, 1 / 2 :: real] ! 1 = 1 \<and>
   apply_affine_transform toy_env ([1, 2, 3, 4], 7) ([4, 4], 1) [2, 4, 1 / 2] [0, 90, 180] LINEAR
     = Inr ([1, 2, 3, 4], 207) \<and>
   ([1, 2, 3, 4], 207)
     = setitem0 toy_env ([1, 2, 3, 4], 7) (from_numpy toy_env (transpose toy_env
         (GetArrayFromImage toy_env
            (Resample toy_env (nib_to_sitk toy_env (getitem0 toy_env ([1, 2, 3, 4], 7)) ([4, 4], 1))
               (Composite [ScaleTransform [1 / 2, 1 / 4, 2],
                           Euler3DTransform 0 (pi / 2) pi])
               LINEAR))))"
proof -
  have r: "apply_affine_transform toy_env ([1, 2, 3, 4], 7) ([4, 4], 1) [2, 4, 1 / 2] [0, 90, 180] LINEAR
     = Inr ([1, 2, 3, 4], 207)"
    by (simp add: apply_affine_transform_def get_scaling_transform_def
          get_rotation_transform_def radians_of_def toy_env_def toy_Resample_def)
  show ?thesis
    using r C5_composed_transform [where sc = "[2, 4, 1 / 2]" and E = toy_env
              and array = "([1, 2, 3, 4], 7)" and affine = "([4, 4], 1)"
              and rot = "[0, 90, 180]" and ip = LINEAR and array' = "([1, 2, 3, 4], 207)"]
    by (simp add: toy_env_def toy_Resample_def)
qed

section \<open>Properties of RandomAffine: the sample\<close>

lemma transform_values_keys:
  "transform_values E ip sc rot xs = Inr ys \<Longrightarrow> map fst ys = map fst xs"
  by (induction xs arbitrary: ys) (auto split: sum.splits)

lemma transform_values_map_of:
  "transform_values E ip sc rot xs = Inr ys \<Longrightarrow> map_of xs k = Some v \<Longrightarrow>
     \<exists>v'. transform_value E ip sc rot v = Inr v' \<and> map_of ys k = Some v'"
  by (induction xs arbitrary: ys) (auto split: sum.splits if_splits)

lemma transform_value_other:
  "\<not> is_image_dict E v \<Longrightarrow> transform_value E ip sc rot v = Inr v"
  by (simp add: transform_value_def)

lemma transform_value_image:
  assumes "is_image_dict E v" and "transform_value E ip sc rot v = Inr v'"
  shows "\<exists>d ty array affine array'.
           v = PDict d \<and> map_of d ''type'' = Some ty \<and>
           map_of d (DATA E) = Some (PTensor array) \<and>
           map_of d (AFFINE E) = Some (PArray affine) \<and>
           apply_affine_transform E array affine sc rot
             (if ty = PStr (LABEL E) then NEAREST else ip) = Inr array' \<and>
           v' = PDict (AList.update (DATA E) (PTensor array') d)"
  using assms
  by (auto simp: transform_value_def Let_def
      split: pyval.splits option.splits sum.splits if_splits)

lemma apply_transform_Inr:
  assumes "apply_transform E self sample g = Inr (sample', g')"
  shows "\<exists>sc rot. check_consistent_shape E sample = None \<and>
           get_params E (scales self) (degrees self) (isotropic self) g = Inr ((sc, rot), g') \<and>
           transform_values E (interpolation self) sc rot
             (AList.update ''random_rotation'' (PFloats rot)
                (AList.update ''random_scaling'' (PFloats sc) sample)) = Inr sample'"
  using assms
  by (auto simp: apply_transform_def Let_def split: option.splits prod.splits sum.splits)


lemma transform_value_PFloats:
  "transform_value E ip sc rot (PFloats x) = Inr v' \<Longrightarrow>
     v' = PFloats x \<and> \<not> is_image_dict E (PFloats x)"
  by (auto simp: transform_value_def split: if_splits)

lemma stored_params:
  assumes "transform_values E ip sc rot
             (AList.update ''random_rotation'' (PFloats rot)
                (AList.update ''random_scaling'' (PFloats sc) sample)) = Inr sample'"
  shows "map_of sample' ''random_scaling'' = Some (PFloats sc)"
    and "map_of sample' ''random_rotation'' = Some (PFloats rot)"
    and "\<not> is_image_dict E (PFloats sc)" and "\<not> is_image_dict E (PFloats rot)"
proof -
  let ?st = "AList.update ''random_rotation'' (PFloats rot)
                (AList.update ''random_scaling'' (PFloats sc) sample)"
  have s: "map_of ?st ''random_scaling'' = Some (PFloats sc)"
    by (simp add: update_conv')
  have r: "map_of ?st ''random_rotation'' = Some (PFloats rot)"
    by (simp add: update_conv')
  from transform_values_map_of [OF assms s] transform_value_PFloats
  show "map_of sample' ''random_scaling'' = Some (PFloats sc)"
    and "\<not> is_image_dict E (PFloats sc)" by blast+
  from transform_values_map_of [OF assms r] transform_value_PFloats
  show "map_of sample' ''random_rotation'' = Some (PFloats rot)"
    and "\<not> is_image_dict E (PFloats rot)" by blast+
qed


lemma update_keys_present:
  "k \<in> fst ` set al \<Longrightarrow> map fst (AList.update k v al) = map fst al"
  by (induction al) auto

lemma transform_value_frame:
  assumes i: "is_image_dict E v" and t: "transform_value E ip sc rot v = Inr v'"
  shows "\<exists>d d'. v = PDict d \<and> v' = PDict d' \<and> map fst d' = map fst d \<and>
           (\<forall>f. f \<noteq> DATA E \<longrightarrow> map_of d' f = map_of d f)"
proof -
  from transform_value_image [OF i t] obtain d ty array affine array' where
    v: "v = PDict d" and da: "map_of d (DATA E) = Some (PTensor array)" and
    v': "v' = PDict (AList.update (DATA E) (PTensor array') d)" by blast
  from da have "DATA E \<in> fst ` set d" by (rule map_of_SomeD [THEN imageI [where f = fst], simplified])
  then have keys: "map fst (AList.update (DATA E) (PTensor array') d) = map fst d"
    by (rule update_keys_present)
  have vals: "\<forall>f. f \<noteq> DATA E \<longrightarrow>
                map_of (AList.update (DATA E) (PTensor array') d) f = map_of d f"
    by (simp add: update_conv')
  from v v' keys vals show ?thesis by blast
qed

lemma toy_get_params:
  "get_params toy_env (3 / 4, 5 / 4) (- 10, 10) False 0
     = Inr (([3 / 4, 1, 3 / 4], [0, - 10, 0]), 6)"
  by (simp add: get_params_def FloatTensor_uniform_def float32_3_4 float32_5_4 float32_10
        float32_minus_10 toy_env_def numeral_3_eq_3)

lemma toy_apply_affine:
  "length sh = 4 \<Longrightarrow> hd sh = Suc 0 \<Longrightarrow>
   apply_affine_transform toy_env (sh, n) aff [p, q, r] [a, b, c] ip
     = Inr (sh, n + (case ip of NEAREST \<Rightarrow> 100 | LINEAR \<Rightarrow> 200 | Member m \<Rightarrow> 300))"
  by (simp add: apply_affine_transform_def get_scaling_transform_def
        get_rotation_transform_def radians_of_def toy_env_def toy_Resample_def)

lemma toy_env_fields:
  "DATA toy_env = ''data''" "AFFINE toy_env = ''affine''" "LABEL toy_env = ''label''"
  "is_image_dict toy_env = toy_is_image_dict" "check_consistent_shape toy_env s = None"
  by (simp_all add: toy_env_def)

lemma toy_run: "apply_transform toy_env toy_affine toy_sample 0 = Inr (toy_result, 6)"
  by (simp add: apply_transform_def toy_affine_def toy_sample_def toy_result_def
        toy_get_params transform_value_def toy_apply_affine toy_env_fields)

lemma toy_rerun:
  "apply_transform toy_env toy_affine toy_previous 0 = Inr (toy_result_previous, 6)"
  by (simp add: apply_transform_def toy_affine_def toy_previous_def toy_sample_def toy_result_def
        toy_result_previous_def
        toy_get_params transform_value_def toy_apply_affine toy_env_fields)





text \<open>
  Claim C8, as stated, fails: an entry of the sample that is not an image dictionary
  is modified when it is stored under \<open>'random_scaling'\<close> (or \<open>'random_rotation'\<close>),
  as in a sample that went through the transform before.
\<close>

theorem C8_nonimage_counterexample:
  "apply_transform toy_env toy_affine toy_previous 0 = Inr (toy_result_previous, 6) \<and>
   map_of toy_previous ''random_scaling'' = Some (PFloats [1, 1, 1]) \<and>
   \<not> is_image_dict toy_env (PFloats [1, 1, 1]) \<and>
   map_of toy_result_previous ''random_scaling'' = Some (PFloats [3 / 4, 1, 3 / 4]) \<and>
   map_of toy_result_previous ''random_scaling'' \<noteq> map_of toy_previous ''random_scaling''"
  using toy_rerun
  by (simp add: toy_previous_def toy_sample_def toy_result_def toy_result_previous_def
        toy_env_fields)

text \<open>
  Claim C8, amended. The returned sample holds the sampled parameters under
  \<open>'random_scaling'\<close> and \<open>'random_rotation'\<close>, whatever the given sample held there,
  and its keys are those of the given sample and these two. Under every other key,
  an entry that is not an image dictionary is unchanged, and an image dictionary
  keeps its keys and every field other than \<open>DATA\<close> (so its \<open>AFFINE\<close>, \<open>'type'\<close>,
  \<open>'path'\<close> and \<open>'stem'\<close> entries).
\<close>

theorem C8_frame:
  assumes "apply_transform E self sample g = Inr (sample', g')"
  shows "\<exists>sc rot.
     get_params E (scales self) (degrees self) (isotropic self) g = Inr ((sc, rot), g') \<and>
     map_of sample' ''random_scaling'' = Some (PFloats sc) \<and>
     map_of sample' ''random_rotation'' = Some (PFloats rot) \<and>
     fst ` set sample' = fst ` set sample \<union> {''random_scaling'', ''random_rotation''} \<and>
     (\<forall>k v. k \<noteq> ''random_scaling'' \<and> k \<noteq> ''random_rotation'' \<and>
            map_of sample k = Some v \<and> \<not> is_image_dict E v \<longrightarrow>
            map_of sample' k = Some v) \<and>
     (\<forall>k v. k \<noteq> ''random_scaling'' \<and> k \<noteq> ''random_rotation'' \<and>
            map_of sample k = Some v \<and> is_image_dict E v \<longrightarrow>
            (\<exists>d d'. v = PDict d \<and> map_of sample' k = Some (PDict d') \<and>
               map fst d' = map fst d \<and>
               (\<forall>f. f \<noteq> DATA E \<longrightarrow> map_of d' f = map_of d f)))"
proof -
  from apply_transform_Inr [OF assms] obtain sc rot where
    gp: "get_params E (scales self) (degrees self) (isotropic self) g = Inr ((sc, rot), g')" and
    tv: "transform_values E (interpolation self) sc rot
           (AList.update ''random_rotation'' (PFloats rot)
              (AList.update ''random_scaling'' (PFloats sc) sample)) = Inr sample'"
    by blast
  let ?st = "AList.update ''random_rotation'' (PFloats rot)
              (AList.update ''random_scaling'' (PFloats sc) sample)"
  have st: "map_of ?st k = map_of sample k"
    if "k \<noteq> ''random_scaling''" "k \<noteq> ''random_rotation''" for k
    using that by (simp add: update_conv')
  have "map fst sample' = map fst ?st" by (rule transform_values_keys [OF tv])
  then have "set (map fst sample') = set (map fst ?st)" by simp
  then have keys: "fst ` set sample' = fst ` set sample \<union> {''random_scaling'', ''random_rotation''}"
    by (auto simp: dom_update)
  have other: "map_of sample' k = Some v"
    if "k \<noteq> ''random_scaling'' \<and> k \<noteq> ''random_rotation'' \<and>
        map_of sample k = Some v \<and> \<not> is_image_dict E v" for k v
  proof -
    from that st have m: "map_of ?st k = Some v" by simp
    from transform_values_map_of [OF tv m] transform_value_other [of E v] that
    show ?thesis by auto
  qed
  have img: "\<exists>d d'. v = PDict d \<and> map_of sample' k = Some (PDict d') \<and>
               map fst d' = map fst d \<and>
               (\<forall>f. f \<noteq> DATA E \<longrightarrow> map_of d' f = map_of d f)"
    if "k \<noteq> ''random_scaling'' \<and> k \<noteq> ''random_rotation'' \<and>
        map_of sample k = Some v \<and> is_image_dict E v" for k v
  proof -
    from that st have m: "map_of ?st k = Some v" by simp
    from that have i: "is_image_dict E v" by simp
    from transform_values_map_of [OF tv m] obtain v' where
      t: "transform_value E (interpolation self) sc rot v = Inr v'" and
      m': "map_of sample' k = Some v'" by blast
    from transform_value_frame [OF i t] m' show ?thesis by auto
  qed
  show ?thesis
    apply (rule exI [of _ sc], rule exI [of _ rot])
    apply (rule conjI, rule gp)
    apply (rule conjI, rule stored_params(1) [OF tv])
    apply (rule conjI, rule stored_params(2) [OF tv])
    apply (rule conjI, rule keys)
    apply (rule conjI, intro allI impI, erule other)
    apply (intro allI impI, erule img)
    done
qed

theorem C8_frame_witness:
  "apply_transform toy_env toy_affine toy_previous 0 = Inr (toy_result_previous, 6) \<and>
   (\<exists>sc rot.
      get_params toy_env (scales toy_affine) (degrees toy_affine) (isotropic toy_affine) 0
        = Inr ((sc, rot), 6) \<and>
      map_of toy_result_previous ''random_scaling'' = Some (PFloats sc) \<and>
      map_of toy_result_previous ''random_rotation'' = Some (PFloats rot) \<and>
      fst ` set toy_result_previous
        = fst ` set toy_previous \<union> {''random_scaling'', ''random_rotation''}) \<and>
   map_of toy_previous ''random_scaling'' = Some (PFloats [1, 1, 1]) \<and>
   map_of toy_result_previous ''random_scaling'' = Some (PFloats [3 / 4, 1, 3 / 4]) \<and>
   map_of toy_previous ''note'' = Some (PStr ''second run'') \<and>
   map_of toy_result_previous ''note'' = Some (PStr ''second run'') \<and>
   map_of toy_previous ''t1''
     = Some (PDict [(''data'', PTensor ([1, 2, 3, 4], 7)), (''affine'', PArray ([4, 4], 1)),
                    (''type'', PStr ''intensity''), (''path'', PStr ''/home/u/t1.nii''),
                    (''stem'', PStr ''t1'')]) \<and>
   map_of toy_result_previous ''t1''
     = Some (PDict [(''data'', PTensor ([1, 2, 3, 4], 207)), (''affine'', PArray ([4, 4], 1)),
                    (''type'', PStr ''intensity''), (''path'', PStr ''/home/u/t1.nii''),
                    (''stem'', PStr ''t1'')])"
proof -
  from C8_frame [OF toy_rerun]
  have e: "\<exists>sc rot.
      get_params toy_env (scales toy_affine) (degrees toy_affine) (isotropic toy_affine) 0
        = Inr ((sc, rot), 6) \<and>
      map_of toy_result_previous ''random_scaling'' = Some (PFloats sc) \<and>
      map_of toy_result_previous ''random_rotation'' = Some (PFloats rot) \<and>
      fst ` set toy_result_previous
        = fst ` set toy_previous \<union> {''random_scaling'', ''random_rotation''}"
    apply (elim exE conjE)
    apply (intro exI conjI)
       apply assumption+
    done
  have c: "map_of toy_previous ''random_scaling'' = Some (PFloats [1, 1, 1])"
    "map_of toy_result_previous ''random_scaling'' = Some (PFloats [3 / 4, 1, 3 / 4])"
    "map_of toy_previous ''note'' = Some (PStr ''second run'')"
    "map_of toy_result_previous ''note'' = Some (PStr ''second run'')"
    "map_of toy_previous ''t1''
     = Some (PDict [(''data'', PTensor ([1, 2, 3, 4], 7)), (''affine'', PArray ([4, 4], 1)),
                    (''type'', PStr ''intensity''), (''path'', PStr ''/home/u/t1.nii''),
                    (''stem'', PStr ''t1'')])"
    "map_of toy_result_previous ''t1''
     = Some (PDict [(''data'', PTensor ([1, 2, 3, 4], 207)), (''affine'', PArray ([4, 4], 1)),
                    (''type'', PStr ''intensity''), (''path'', PStr ''/home/u/t1.nii''),
                    (''stem'', PStr ''t1'')])"
    by (simp_all add: toy_previous_def toy_sample_def toy_result_def toy_result_previous_def)
  from toy_rerun e c show ?thesis by (intro conjI)
qed

section \<open>Properties of ImagesDataset\<close>

lemma parse_images_loop_Inr:
  "parse_images_loop xs names = Inr u \<Longrightarrow>
     \<exists>ims. xs = map Img ims \<and> distinct (map name ims)"
proof (induction xs names rule: parse_images_loop.induct)
  case (1 names)
  then show ?case by simp
next
  case (2 c rest names)
  then show ?case by simp
next
  case (3 im rest names)
  from "3.prems" have nin: "name im \<notin> set names"
    and r: "parse_images_loop rest (names @ [name im]) = Inr u"
    by (simp_all split: if_splits)
  from "3.IH" [OF nin r] obtain ims where
    rest: "rest = map Img ims" and d: "distinct (map name ims)" by blast
  from r rest have "parse_images_loop (map Img ims) (names @ [name im]) = Inr u" by simp
  then have "set (map name ims) \<inter> set (names @ [name im]) = {}"
    by (simp add: parse_images_loop_Img split: if_splits)
  then have "name im \<notin> set (map name ims)" by auto
  with rest d have "Img im # rest = map Img (im # ims) \<and> distinct (map name (im # ims))"
    by simp
  then show ?case by (rule exI)
qed

lemma parse_subjects_loop_Inr:
  "parse_subjects_loop subjs = Inr u \<Longrightarrow> s \<in> set subjs \<Longrightarrow>
     \<exists>ims. items s = map Img ims \<and> distinct (map name ims)"
proof (induction subjs)
  case Nil
  then show ?case by simp
next
  case (Cons a subjs)
  from Cons.prems(1) have h: "parse_images (items a) = Inr ()"
    and r: "parse_subjects_loop subjs = Inr u"
    by (simp_all add: Subject_def split: sum.splits)
  show ?case
  proof (cases "s = a")
    case True
    from h have "parse_images_loop (items a) [] = Inr ()"
      by (simp add: parse_images_def split: if_splits)
    from parse_images_loop_Inr [OF this] True show ?thesis by simp
  next
    case False
    with Cons.prems(2) have "s \<in> set subjs" by simp
    from Cons.IH [OF r this] show ?thesis .
  qed
qed

lemma ImagesDataset_init_Inr:
  assumes "ImagesDataset_init subjs tr cn = Inr ds"
  shows "subjects ds = subjs" and "transform ds = tr" and "check_nans ds = cn"
    and "s \<in> set subjs \<Longrightarrow> \<exists>ims. items s = map Img ims \<and> distinct (map name ims)"
proof -
  from assms have p: "parse_subjects_list subjs = Inr ()"
    and ds: "ds = \<lparr>subjects = subjs, transform = tr, check_nans = cn\<rparr>"
    by (auto simp: ImagesDataset_init_def split: sum.splits)
  from ds show "subjects ds = subjs" and "transform ds = tr" and "check_nans ds = cn"
    by simp_all
  from p have "parse_subjects_loop subjs = Inr ()"
    by (simp add: parse_subjects_list_def split: if_splits)
  from parse_subjects_loop_Inr [OF this]
  show "s \<in> set subjs \<Longrightarrow> \<exists>ims. items s = map Img ims \<and> distinct (map name ims)" .
qed

lemma load_Inr:
  "load E im cn = Inr ((t', a), w) \<Longrightarrow>
     \<exists>t. read_image E (path im) = Inr (t, a) \<and> t' = unsqueeze0 E t"
  by (auto simp: load_def Let_def split: sum.splits prod.splits)

lemma load_ok:
  "read_image E (path im) = Inr (t, a) \<Longrightarrow> \<exists>w. load E im cn = Inr ((unsqueeze0 E t, a), w)"
  by (simp add: load_def Let_def)

lemma getitem_loop_frame:
  "getitem_loop E cn (map Img ims) (acc, ws) = Inr (s, ws') \<Longrightarrow> k \<notin> name ` set ims \<Longrightarrow>
     map_of s k = map_of acc k"
proof (induction ims arbitrary: acc ws)
  case Nil
  then show ?case by simp
next
  case (Cons im ims)
  from Cons.prems(1) obtain t a w where
    r: "getitem_loop E cn (map Img ims)
          (AList.update (name im) (PDict (image_dict E im t a)) acc, ws @ w) = Inr (s, ws')"
    by (auto split: sum.splits)
  from Cons.prems(2) have k: "k \<notin> name ` set ims" and ne: "k \<noteq> name im" by auto
  from Cons.IH [OF r k] ne show ?case by (simp add: update_conv')
qed

lemma getitem_loop_entries:
  "getitem_loop E cn (map Img ims) (acc, ws) = Inr (s, ws') \<Longrightarrow> distinct (map name ims) \<Longrightarrow>
     \<forall>im\<in>set ims. \<exists>t a. read_image E (path im) = Inr (t, a) \<and>
        map_of s (name im) = Some (PDict (image_dict E im (unsqueeze0 E t) a))"
proof (induction ims arbitrary: acc ws)
  case Nil
  then show ?case by simp
next
  case (Cons im ims)
  from Cons.prems(1) obtain t' a w where
    l: "load E im cn = Inr ((t', a), w)" and
    r: "getitem_loop E cn (map Img ims)
          (AList.update (name im) (PDict (image_dict E im t' a)) acc, ws @ w) = Inr (s, ws')"
    by (auto split: sum.splits)
  from load_Inr [OF l] obtain t where
    rd: "read_image E (path im) = Inr (t, a)" and t': "t' = unsqueeze0 E t" by blast
  from Cons.prems(2) have nin: "name im \<notin> name ` set ims" and d: "distinct (map name ims)"
    by auto
  from getitem_loop_frame [OF r nin]
  have "map_of s (name im) = Some (PDict (image_dict E im t' a))"
    by (simp add: update_conv')
  with rd t' have hd: "\<exists>t a. read_image E (path im) = Inr (t, a) \<and>
        map_of s (name im) = Some (PDict (image_dict E im (unsqueeze0 E t) a))" by blast
  from Cons.IH [OF r d] hd show ?case by simp
qed

lemma image_dict_fields:
  "map_of (image_dict E im t a) ''stem'' = Some (PStr (get_stem E (path im)))"
  "map_of (image_dict E im t a) ''path'' = Some (PStr (path im))"
  "map_of (image_dict E im t a) ''type'' = Some (PStr (type im))"
  "AFFINE E \<notin> {''type'', ''path'', ''stem''} \<Longrightarrow>
     map_of (image_dict E im t a) (AFFINE E) = Some (PArray a)"
  "DATA E \<notin> {AFFINE E, ''type'', ''path'', ''stem''} \<Longrightarrow>
     map_of (image_dict E im t a) (DATA E) = Some (PTensor t)"
  by (auto simp: image_dict_def update_conv')

lemma list_getitem_valid:
  assumes "- int (length xs) \<le> i \<and> i < int (length xs)"
  shows "list_getitem xs i = Inr (xs ! nat (if 0 \<le> i then i else int (length xs) + i))"
    and "nat (if 0 \<le> i then i else int (length xs) + i) < length xs"
  using assms by (auto simp: list_getitem_def)

lemma update_fresh:
  "k \<notin> fst ` set al \<Longrightarrow> AList.update k v al = al @ [(k, v)]"
  by (induction al) auto

lemma list_all2_exists:
  "\<forall>x\<in>set xs. \<exists>y. P x y \<Longrightarrow> \<exists>ys. list_all2 P xs ys"
proof (induction xs)
  case Nil
  show ?case by simp
next
  case (Cons x xs)
  from Cons.prems obtain y where y: "P x y" by auto
  from Cons.prems have "\<forall>x\<in>set xs. \<exists>y. P x y" by simp
  from Cons.IH [OF this] obtain ys where "list_all2 P xs ys" by blast
  with y have "list_all2 P (x # xs) (y # ys)" by simp
  then show ?case by (rule exI)
qed

lemma getitem_loop_exact:
  assumes "list_all2 (\<lambda>im ta. read_image E (path im) = Inr ta) ims tas"
    and "distinct (map name ims)"
    and "name ` set ims \<inter> fst ` set acc = {}"
  shows "\<exists>ws'. getitem_loop E cn (map Img ims) (acc, ws) =
           Inr (acc @ map2 (\<lambda>im ta. (name im,
                               PDict (image_dict E im (unsqueeze0 E (fst ta)) (snd ta)))) ims tas,
                ws')"
  using assms
proof (induction ims tas arbitrary: acc ws rule: list_all2_induct)
  case Nil
  show ?case by simp
next
  case (Cons im ims ta tas)
  obtain t a where ta: "ta = (t, a)" by (cases ta)
  from Cons.hyps(1) ta have "read_image E (path im) = Inr (t, a)" by simp
  from load_ok [OF this] obtain w where l: "load E im cn = Inr ((unsqueeze0 E t, a), w)" by blast
  let ?v = "PDict (image_dict E im (unsqueeze0 E t) a)"
  from Cons.prems(2) have fresh: "name im \<notin> fst ` set acc" by auto
  then have up: "AList.update (name im) ?v acc = acc @ [(name im, ?v)]" by (rule update_fresh)
  from Cons.prems(1) have d: "distinct (map name ims)" and nin: "name im \<notin> name ` set ims"
    by auto
  from Cons.prems(2) nin have dis: "name ` set ims \<inter> fst ` set (acc @ [(name im, ?v)]) = {}"
    by auto
  from Cons.IH [OF d dis, of "ws @ w"] obtain ws' where
    "getitem_loop E cn (map Img ims) (acc @ [(name im, ?v)], ws @ w) =
       Inr ((acc @ [(name im, ?v)]) @ map2 (\<lambda>im ta. (name im,
                               PDict (image_dict E im (unsqueeze0 E (fst ta)) (snd ta)))) ims tas,
            ws')" by blast
  with l up ta show ?case by simp
qed

lemma toy_dataset_init: "ImagesDataset_init [toy_subject_b, toy_subject] None True = Inr toy_dataset"
  by (simp add: ImagesDataset_init_def parse_subjects_list_def Subject_def parse_images_def
        toy_subject_def toy_subject_b_def toy_dataset_def toy_t1_def toy_seg_def)

lemma toy_len: "len (set_transform toy_dataset tr) = 2" "len toy_dataset = 2"
  by (simp_all add: len_def set_transform_def toy_dataset_def)

lemma toy_getitem_loop:
  "getitem_loop toy_env True [Img toy_t1, Img toy_seg] ([], []) = Inr (toy_sample, [])"
  "getitem_loop toy_env True [Img toy_seg] ([], []) = Inr (toy_sample_b, [])"
  by (simp_all add: load_def image_dict_def toy_env_def toy_t1_def toy_seg_def toy_sample_def
        toy_sample_b_def)

lemma getitem_unfold:
  assumes "list_getitem (subjects ds) i = Inr subj"
    and "getitem_loop E (check_nans ds) (items subj) ([], []) = Inr (sample, ws)"
  shows "getitem E ds i =
     (case transform ds of
        None \<Rightarrow> Inr (sample, ws)
      | Some f \<Rightarrow> (case f sample of Inl e \<Rightarrow> Inl e | Inr sample' \<Rightarrow> Inr (sample', ws)))"
  using assms by (simp add: getitem_def)

lemma toy_getitem_transformed:
  "getitem toy_env (set_transform toy_dataset (Some toy_transform)) 1 = Inr (toy_result, [])"
proof -
  let ?ds = "set_transform toy_dataset (Some toy_transform)"
  have a: "list_getitem (subjects ?ds) 1 = Inr toy_subject"
    by (simp add: list_getitem_def set_transform_def toy_dataset_def)
  have c: "check_nans ?ds = True" "items toy_subject = [Img toy_t1, Img toy_seg]"
    "transform ?ds = Some toy_transform"
    by (simp_all add: set_transform_def toy_dataset_def toy_subject_def)
  have b: "getitem_loop toy_env (check_nans ?ds) (items toy_subject) ([], []) = Inr (toy_sample, [])"
    by (simp only: c toy_getitem_loop)
  have t: "toy_transform toy_sample = Inr toy_result"
    by (simp add: toy_transform_def toy_run)
  from getitem_unfold [OF a b] show ?thesis by (simp add: c t)
qed

lemma toy_getitem_last:
  "getitem toy_env toy_dataset (- 2) = Inr (toy_sample_b, [])"
proof -
  have a: "list_getitem (subjects toy_dataset) (- 2) = Inr toy_subject_b"
    by (simp add: list_getitem_def toy_dataset_def)
  have c: "check_nans toy_dataset = True" "items toy_subject_b = [Img toy_seg]"
    "transform toy_dataset = None"
    by (simp_all add: toy_dataset_def toy_subject_b_def)
  have b: "getitem_loop toy_env (check_nans toy_dataset) (items toy_subject_b) ([], [])
             = Inr (toy_sample_b, [])"
    by (simp only: c toy_getitem_loop)
  from getitem_unfold [OF a b] show ?thesis by (simp add: c)
qed

text \<open>
  Claim C2. Take a dataset built by the constructor, its transform the one given
  there or the one given to \<open>set_transform\<close> afterwards, and a valid index \<open>i\<close>
  (from \<open>-len\<close> to \<open>len - 1\<close>, a negative one counted from the end as Python lists
  do). The subject at that index holds images of pairwise distinct names. When
  \<open>read_image\<close> reads every one of them, the sample is the dictionary that maps, in
  the order of the images, the name of each image to the dictionary of
  \<open>image_dict\<close>, holding the tensor read with the channels dimension added, the affine
  matrix, the type, the path and the stem; \<open>__getitem__(i)\<close> returns this sample
  when the transform is \<open>None\<close>, and otherwise what the transform returns for it (or
  raises what the transform raises). \<open>__getitem__(i)\<close> returns only when every
  image was read.
\<close>

theorem C2_getitem:
  assumes init: "ImagesDataset_init subjs tr0 cn = Inr ds0"
    and ds: "ds = ds0 \<or> ds = set_transform ds0 tr1"
    and idx: "- int (len ds) \<le> i \<and> i < int (len ds)"
  shows "\<exists>ims.
     items (subjs ! nat (if 0 \<le> i then i else int (len ds) + i)) = map Img ims \<and>
     distinct (map name ims) \<and>
     (\<forall>tas. list_all2 (\<lambda>im ta. read_image E (path im) = Inr ta) ims tas \<longrightarrow>
        (\<exists>ws. getitem E ds i =
           (case transform ds of
              None \<Rightarrow>
                Inr (map2 (\<lambda>im ta. (name im,
                            PDict (image_dict E im (unsqueeze0 E (fst ta)) (snd ta)))) ims tas, ws)
            | Some f \<Rightarrow>
                (case f (map2 (\<lambda>im ta. (name im,
                            PDict (image_dict E im (unsqueeze0 E (fst ta)) (snd ta)))) ims tas) of
                   Inl e \<Rightarrow> Inl e
                 | Inr s' \<Rightarrow> Inr (s', ws))))) \<and>
     (\<forall>s ws. getitem E ds i = Inr (s, ws) \<longrightarrow>
        (\<exists>tas. list_all2 (\<lambda>im ta. read_image E (path im) = Inr ta) ims tas)) \<and>
     (ds = ds0 \<longrightarrow> transform ds = tr0) \<and>
     (ds = set_transform ds0 tr1 \<longrightarrow> transform ds = tr1) \<and>
     (\<forall>im t a.
        map_of (image_dict E im t a) ''stem'' = Some (PStr (get_stem E (path im))) \<and>
        map_of (image_dict E im t a) ''path'' = Some (PStr (path im)) \<and>
        map_of (image_dict E im t a) ''type'' = Some (PStr (type im)) \<and>
        (AFFINE E \<notin> {''type'', ''path'', ''stem''} \<longrightarrow>
           map_of (image_dict E im t a) (AFFINE E) = Some (PArray a)) \<and>
        (DATA E \<notin> {AFFINE E, ''type'', ''path'', ''stem''} \<longrightarrow>
           map_of (image_dict E im t a) (DATA E) = Some (PTensor t)))"
proof -
  note i0 = ImagesDataset_init_Inr [OF init]
  from ds i0(1) have subj: "subjects ds = subjs" by (auto simp: set_transform_def)
  from ds i0(3) have cn: "check_nans ds = cn" by (auto simp: set_transform_def)
  let ?k = "nat (if 0 \<le> i then i else int (len ds) + i)"
  from idx subj have idx': "- int (length subjs) \<le> i \<and> i < int (length subjs)"
    by (simp add: len_def)
  from subj have len: "len ds = length subjs" by (simp add: len_def)
  have lg: "list_getitem (subjects ds) i = Inr (subjs ! ?k)"
    using list_getitem_valid(1) [OF idx'] by (simp only: subj len)
  have lt: "?k < length subjs"
    using list_getitem_valid(2) [OF idx'] by (simp only: len)
  from lt have mem: "subjs ! ?k \<in> set subjs" by simp
  from i0(4) [OF mem] obtain ims where
    it: "items (subjs ! ?k) = map Img ims" and d: "distinct (map name ims)" by blast
  have g: "getitem E ds i =
     (case getitem_loop E cn (map Img ims) ([], []) of
        Inl e \<Rightarrow> Inl e
      | Inr (sample, ws) \<Rightarrow>
          (case transform ds of
             None \<Rightarrow> Inr (sample, ws)
           | Some f \<Rightarrow> (case f sample of Inl e \<Rightarrow> Inl e | Inr sample' \<Rightarrow> Inr (sample', ws))))"
    by (simp add: getitem_def lg it cn)
  have p1: "\<exists>ws. getitem E ds i =
           (case transform ds of
              None \<Rightarrow>
                Inr (map2 (\<lambda>im ta. (name im,
                            PDict (image_dict E im (unsqueeze0 E (fst ta)) (snd ta)))) ims tas, ws)
            | Some f \<Rightarrow>
                (case f (map2 (\<lambda>im ta. (name im,
                            PDict (image_dict E im (unsqueeze0 E (fst ta)) (snd ta)))) ims tas) of
                   Inl e \<Rightarrow> Inl e
                 | Inr s' \<Rightarrow> Inr (s', ws)))"
    if la: "list_all2 (\<lambda>im ta. read_image E (path im) = Inr ta) ims tas" for tas
  proof -
    from getitem_loop_exact [OF la d, of "[]" cn "[]"] obtain ws where
      "getitem_loop E cn (map Img ims) ([], []) =
         Inr (map2 (\<lambda>im ta. (name im,
                PDict (image_dict E im (unsqueeze0 E (fst ta)) (snd ta)))) ims tas, ws)"
      by auto
    with g show ?thesis by (intro exI [of _ ws]) simp
  qed
  have p2: "\<exists>tas. list_all2 (\<lambda>im ta. read_image E (path im) = Inr ta) ims tas"
    if r: "getitem E ds i = Inr (s, ws)" for s ws
  proof -
    from r g obtain sample ws0 where
      l: "getitem_loop E cn (map Img ims) ([], []) = Inr (sample, ws0)"
      by (auto split: sum.splits)
    from getitem_loop_entries [OF l d]
    have "\<forall>im\<in>set ims. \<exists>ta. read_image E (path im) = Inr ta" by auto
    then show ?thesis by (rule list_all2_exists)
  qed
  have p3: "ds = ds0 \<longrightarrow> transform ds = tr0" using i0(2) by simp
  have p4: "ds = set_transform ds0 tr1 \<longrightarrow> transform ds = tr1"
    by (simp add: set_transform_def)
  have p5: "\<forall>im t a.
        map_of (image_dict E im t a) ''stem'' = Some (PStr (get_stem E (path im))) \<and>
        map_of (image_dict E im t a) ''path'' = Some (PStr (path im)) \<and>
        map_of (image_dict E im t a) ''type'' = Some (PStr (type im)) \<and>
        (AFFINE E \<notin> {''type'', ''path'', ''stem''} \<longrightarrow>
           map_of (image_dict E im t a) (AFFINE E) = Some (PArray a)) \<and>
        (DATA E \<notin> {AFFINE E, ''type'', ''path'', ''stem''} \<longrightarrow>
           map_of (image_dict E im t a) (DATA E) = Some (PTensor t))"
    by (intro allI conjI impI) (simp_all add: image_dict_fields)
  show ?thesis
    apply (rule exI [of _ ims])
    apply (rule conjI, rule it)
    apply (rule conjI, rule d)
    apply (rule conjI, intro allI impI, erule p1)
    apply (rule conjI, intro allI impI, erule p2)
    apply (rule conjI, rule p3)
    apply (rule conjI, rule p4)
    apply (rule p5)
    done
qed

theorem C2_getitem_witness:
  "ImagesDataset_init [toy_subject_b, toy_subject] None True
     = Inr (toy_dataset :: (toy, toy) images_dataset) \<and>
   - int (len (set_transform toy_dataset (Some toy_transform))) \<le> 1 \<and>
   1 < int (len (set_transform toy_dataset (Some toy_transform))) \<and>
   (\<exists>ims. items ([toy_subject_b, toy_subject]
               ! nat (if 0 \<le> (1::int) then 1
                      else int (len (set_transform toy_dataset (Some toy_transform))) + 1))
            = map Img ims \<and> distinct (map name ims)) \<and>
   [toy_subject_b, toy_subject] ! 1 = toy_subject \<and>
   getitem toy_env (set_transform toy_dataset (Some toy_transform)) 1 = Inr (toy_result, []) \<and>
   toy_transform toy_sample = Inr toy_result \<and>
   - int (len (toy_dataset :: (toy, toy) images_dataset)) \<le> - 2 \<and>
   - 2 < int (len (toy_dataset :: (toy, toy) images_dataset)) \<and>
   (\<exists>ims. items ([toy_subject_b, toy_subject]
               ! nat (if 0 \<le> (- 2::int) then - 2
                      else int (len (toy_dataset :: (toy, toy) images_dataset)) + - 2))
            = map Img ims \<and> distinct (map name ims)) \<and>
   [toy_subject_b, toy_subject] ! nat (int (len (toy_dataset :: (toy, toy) images_dataset)) + - 2)
     = toy_subject_b \<and>
   getitem toy_env toy_dataset (- 2) = Inr (toy_sample_b, [])"
proof -
  have i1: "- int (len (set_transform toy_dataset (Some toy_transform))) \<le> 1 \<and>
            1 < int (len (set_transform toy_dataset (Some toy_transform)))"
    by (simp add: toy_len)
  have i2: "- int (len (toy_dataset :: (toy, toy) images_dataset)) \<le> - 2 \<and>
            - 2 < int (len (toy_dataset :: (toy, toy) images_dataset))"
    by (simp add: toy_len)
  from C2_getitem [where E = toy_env and ?tr1.0 = "Some toy_transform",
          OF toy_dataset_init disjI2 [OF refl] i1]
  have e1: "\<exists>ims. items ([toy_subject_b, toy_subject]
               ! nat (if 0 \<le> (1::int) then 1
                      else int (len (set_transform toy_dataset (Some toy_transform))) + 1))
            = map Img ims \<and> distinct (map name ims)"
    apply (elim exE conjE)
    apply (intro exI conjI)
     apply assumption+
    done
  from C2_getitem [where E = toy_env and ?tr1.0 = None,
          OF toy_dataset_init disjI1 [OF refl] i2]
  have e2: "\<exists>ims. items ([toy_subject_b, toy_subject]
               ! nat (if 0 \<le> (- 2::int) then - 2
                      else int (len (toy_dataset :: (toy, toy) images_dataset)) + - 2))
            = map Img ims \<and> distinct (map name ims)"
    apply (elim exE conjE)
    apply (intro exI conjI)
     apply assumption+
    done
  have t: "toy_transform toy_sample = Inr toy_result"
    by (simp add: toy_transform_def toy_run)
  have n: "[toy_subject_b, toy_subject] ! 1 = toy_subject"
    "[toy_subject_b, toy_subject] ! nat (int (len (toy_dataset :: (toy, toy) images_dataset)) + - 2)
       = toy_subject_b"
    by (simp_all add: toy_len)
  from toy_dataset_init i1 e1 n toy_getitem_transformed t i2 e2 toy_getitem_last
  show ?thesis by (intro conjI) simp_all
qed

end
